theory Spec2Isabelle
  imports Complex_Main
begin

section \<open>Joystick sampling (Common/utils.js, useJoystick hook)\<close>

text \<open>
  Gamepad axes are JavaScript numbers in \<open>[-1, 1]\<close>; they are modelled as reals, so the
  rounding of IEEE doubles is abstracted away. \<open>Math.round\<close> rounds to the nearest
  integer, ties towards \<open>+\<infinity>\<close>.
\<close>

definition Math_round :: "real \<Rightarrow> int" where
  "Math_round x = \<lfloor>x + 1 / 2\<rfloor>"

definition applyDeadzone :: "real \<Rightarrow> real \<Rightarrow> real" where
  "applyDeadzone val deadzone =
     (if \<bar>val\<bar> < deadzone then 0
      else if val > 0 then (val - deadzone) / (1 - deadzone)
      else (val + deadzone) / (1 - deadzone))"

definition mapToPWM :: "real \<Rightarrow> int" where
  "mapToPWM val = Math_round (1500 + val * 500)"

definition JOYSTICK_DEADZONE :: real where
  "JOYSTICK_DEADZONE = 5 / 100"

definition THROTTLE_CHANGE_RATE :: real where
  "THROTTLE_CHANGE_RATE = 5"

text \<open>The four RC channels of \<open>currentPWMValues\<close>, and the four axes read from the gamepad.\<close>

record pwm_values =
  ROLL :: int
  PITCH :: int
  THROTTLE :: int
  YAW :: int

record gamepad_axes =
  axes0 :: real
  axes1 :: real
  axes2 :: real
  axes3 :: real

definition initialPWMValues :: pwm_values where
  "initialPWMValues = \<lparr>ROLL = 1500, PITCH = 1500, THROTTLE = 1000, YAW = 1500\<rparr>"

text \<open>
  The state updater that \<open>pollJoystick\<close> passes to \<open>setCurrentPWMValues\<close>: yaw, roll and
  pitch are absolute, the throttle is integrated from its previous value.
\<close>

definition pollJoystick :: "gamepad_axes \<Rightarrow> pwm_values \<Rightarrow> pwm_values" where
  "pollJoystick gamepad prev =
     (let rawYaw = axes0 gamepad;
          rawThrottle = - axes1 gamepad;
          rawRoll = axes2 gamepad;
          rawPitch = - axes3 gamepad;
          yaw = applyDeadzone rawYaw JOYSTICK_DEADZONE;
          roll = applyDeadzone rawRoll JOYSTICK_DEADZONE;
          pitch = applyDeadzone rawPitch JOYSTICK_DEADZONE;
          newThrottle =
            (if \<bar>rawThrottle\<bar> > JOYSTICK_DEADZONE
             then Math_round (max 1000 (min 2000
                    (real_of_int (THROTTLE prev) + rawThrottle * THROTTLE_CHANGE_RATE)))
             else THROTTLE prev)
      in \<lparr>ROLL = mapToPWM roll, PITCH = mapToPWM pitch,
          THROTTLE = newThrottle, YAW = mapToPWM yaw\<rparr>)"

text \<open>A run of the 50 ms poll: one element of the list per tick, oldest first.\<close>

definition pollTicks :: "gamepad_axes list \<Rightarrow> pwm_values \<Rightarrow> pwm_values" where
  "pollTicks ticks start = foldl (\<lambda>prev gamepad. pollJoystick gamepad prev) start ticks"

text \<open>Reading an array at an index: \<open>undefined\<close> out of range.\<close>

definition elem_at :: "'a list \<Rightarrow> nat \<Rightarrow> 'a option" where
  "elem_at xs i = (if i < length xs then Some (xs ! i) else None)"

section \<open>Elevation cache (Common/utils.js, useElevation hook)\<close>

text \<open>
  The cache is a plain JavaScript object. Its keys are the strings
  \<open>lat.toFixed(6) + "," + lon.toFixed(6)\<close>, which are never array indices, so
  \<open>Object.keys\<close> lists them in the order in which they were first added. An object is
  modelled by the list of its properties in that order; a well-formed object has no key
  twice.
\<close>

type_synonym ('k, 'v) js_object = "('k \<times> 'v) list"

definition Object_keys :: "('k, 'v) js_object \<Rightarrow> 'k list" where
  "Object_keys obj = map fst obj"

definition well_formed :: "('k, 'v) js_object \<Rightarrow> bool" where
  "well_formed obj = distinct (Object_keys obj)"

text \<open>\<open>obj[key]\<close>, \<open>delete obj[key]\<close> and \<open>{ ...obj, [key]: v }\<close>: assigning an existing
  key replaces its value where it stands, a new key goes to the end.\<close>

definition obj_get :: "('k, 'v) js_object \<Rightarrow> 'k \<Rightarrow> 'v option" where
  "obj_get obj key = map_of obj key"

definition obj_delete :: "('k, 'v) js_object \<Rightarrow> 'k \<Rightarrow> ('k, 'v) js_object" where
  "obj_delete obj key = filter (\<lambda>kv. fst kv \<noteq> key) obj"

definition obj_spread_set :: "('k, 'v) js_object \<Rightarrow> 'k \<Rightarrow> 'v \<Rightarrow> ('k, 'v) js_object" where
  "obj_spread_set obj key v =
     (if key \<in> set (Object_keys obj)
      then map (\<lambda>kv. if fst kv = key then (key, v) else kv) obj
      else obj @ [(key, v)])"

definition limitCacheSize :: "('k, 'v) js_object \<Rightarrow> nat \<Rightarrow> ('k, 'v) js_object" where
  "limitCacheSize cache maxSize =
     (let keys = Object_keys cache in
      if length keys \<le> maxSize then cache
      else (let keysToRemove = take (length keys - maxSize) keys
            in foldl obj_delete cache keysToRemove))"

definition MAX_ELEVATION_CACHE_SIZE :: nat where
  "MAX_ELEVATION_CACHE_SIZE = 100"

text \<open>The updater given to \<open>setElevationCache\<close>, in \<open>useElevation\<close> and in
  \<open>handleLocationMessage\<close> alike.\<close>

definition insertElevation :: "'k \<Rightarrow> 'v \<Rightarrow> ('k, 'v) js_object \<Rightarrow> ('k, 'v) js_object" where
  "insertElevation cacheKey elevationResult prevCache =
     limitCacheSize (obj_spread_set prevCache cacheKey elevationResult) MAX_ELEVATION_CACHE_SIZE"

text \<open>A use of the cache either reads a key (the cache stays as it is) or stores a
  looked-up result.\<close>

datatype ('k, 'v) cache_op = CacheGet 'k | CacheInsert 'k 'v

fun cache_step :: "('k, 'v) js_object \<Rightarrow> ('k, 'v) cache_op \<Rightarrow> ('k, 'v) js_object" where
  "cache_step cache (CacheGet key) = cache"
| "cache_step cache (CacheInsert key v) = insertElevation key v cache"

definition cache_run :: "('k, 'v) cache_op list \<Rightarrow> ('k, 'v) js_object" where
  "cache_run ops = foldl cache_step [] ops"

section \<open>Peer session (useWebRTC hook)\<close>

text \<open>
  The peer object of the transport library is modelled by the options it was created
  with and by what the console did to it: the events that have a handler, the signals
  and commands handed to it, and whether it was destroyed.
\<close>

record offer_data =
  sdp :: "string option"
  offer_type :: "string option"

record simple_peer =
  initiator :: bool
  trickle :: bool
  listeners :: "string list"
  signalled :: "offer_data list"
  sent :: "string list"
  destroyed :: bool

record media_track =
  track_id :: string
  kind :: string

record video_element =
  srcObject :: "media_track list option"

text \<open>
  The refs and state of the hook. \<open>stoppedTracks\<close> logs the calls of \<open>track.stop()\<close> and
  \<open>tornDown\<close> the peers that \<open>cleanupPeer\<close> let go, as it left them.
\<close>

record webrtc_state =
  connectionStatus :: string
  videoActive :: bool
  peerRef :: "simple_peer option"
  regularVideoRef :: "video_element option"
  thermalVideoRef :: "video_element option"
  videoTracks_regular :: "media_track option"
  videoTracks_thermal :: "media_track option"
  dataListener :: bool
  trackCount :: nat
  stoppedTracks :: "media_track list"
  tornDown :: "simple_peer list"

definition peerEvents :: "string list" where
  "peerEvents = [''signal'', ''connect'', ''close'', ''error'', ''data'', ''stream'', ''track'']"

definition removeAllListeners :: "string \<Rightarrow> simple_peer \<Rightarrow> simple_peer" where
  "removeAllListeners event p = p\<lparr>listeners := filter (\<lambda>e. e \<noteq> event) (listeners p)\<rparr>"

definition cleanupPeer :: "webrtc_state \<Rightarrow> webrtc_state" where
  "cleanupPeer s =
     (case peerRef s of
        None \<Rightarrow> s
      | Some p \<Rightarrow>
          (let p1 = foldl (\<lambda>q event. removeAllListeners event q) p peerEvents;
               p2 = p1\<lparr>destroyed := True\<rparr>
           in s\<lparr>peerRef := None, dataListener := False, trackCount := 0,
                tornDown := tornDown s @ [p2]\<rparr>))"

text \<open>\<open>!offerData || !offerData.sdp || offerData.type !== "offer"\<close>: a missing payload and
  an empty one are both falsy.\<close>

definition invalidOffer :: "offer_data option \<Rightarrow> bool" where
  "invalidOffer offerData =
     (case offerData of
        None \<Rightarrow> True
      | Some d \<Rightarrow> sdp d = None \<or> sdp d = Some [] \<or> offer_type d \<noteq> Some ''offer'')"

definition newPeer :: simple_peer where
  "newPeer = \<lparr>initiator = False, trickle = False, listeners = [],
              signalled = [], sent = [], destroyed = False\<rparr>"

definition peer_on :: "string \<Rightarrow> simple_peer \<Rightarrow> simple_peer" where
  "peer_on event p = p\<lparr>listeners := listeners p @ [event]\<rparr>"

definition handleOffer :: "offer_data option \<Rightarrow> webrtc_state \<Rightarrow> webrtc_state" where
  "handleOffer offerData s =
     (if invalidOffer offerData then s
      else (let s1 = (cleanupPeer s)\<lparr>trackCount := 0\<rparr>;
                peer = foldl (\<lambda>q event. peer_on event q) newPeer
                         [''signal'', ''connect'', ''close'', ''error'', ''stream'', ''track''];
                peer' = peer\<lparr>signalled := signalled peer @ [the offerData]\<rparr>
            in s1\<lparr>peerRef := Some peer'\<rparr>))"

text \<open>\<open>handleTrack\<close>: the role of a video track is its arrival ordinal.\<close>

definition stopTracks :: "media_track list \<Rightarrow> webrtc_state \<Rightarrow> webrtc_state" where
  "stopTracks ts s = s\<lparr>stoppedTracks := stoppedTracks s @ ts\<rparr>"

definition oldTracks :: "video_element \<Rightarrow> media_track list" where
  "oldTracks el = (case srcObject el of None \<Rightarrow> [] | Some ts \<Rightarrow> ts)"

definition handleTrack :: "media_track \<Rightarrow> webrtc_state \<Rightarrow> webrtc_state" where
  "handleTrack track s =
     (if kind track \<noteq> ''video'' then s
      else (let s1 = s\<lparr>trackCount := trackCount s + 1\<rparr>;
                isRegular = (trackCount s1 = 1);
                isThermal = (trackCount s1 = 2)
            in if isRegular \<and> regularVideoRef s1 \<noteq> None then
                 (let s2 = stopTracks (case videoTracks_regular s1 of None \<Rightarrow> [] | Some t \<Rightarrow> [t]) s1;
                      s3 = s2\<lparr>videoTracks_regular := Some track\<rparr>;
                      s4 = stopTracks (oldTracks (the (regularVideoRef s3))) s3
                  in s4\<lparr>regularVideoRef := Some \<lparr>srcObject = Some [track]\<rparr>\<rparr>)
               else if isThermal \<and> thermalVideoRef s1 \<noteq> None then
                 (let s2 = stopTracks (case videoTracks_thermal s1 of None \<Rightarrow> [] | Some t \<Rightarrow> [t]) s1;
                      s3 = s2\<lparr>videoTracks_thermal := Some track\<rparr>;
                      s4 = stopTracks (oldTracks (the (thermalVideoRef s3))) s3
                  in s4\<lparr>thermalVideoRef := Some \<lparr>srcObject = Some [track]\<rparr>\<rparr>)
               else s1))"

definition handleTracks :: "media_track list \<Rightarrow> webrtc_state \<Rightarrow> webrtc_state" where
  "handleTracks tracks s = foldl (\<lambda>st track. handleTrack track st) s tracks"

text \<open>\<open>sendCommand\<close>: guarded by the presence of a peer and by control authority.\<close>

definition sendCommand :: "string \<Rightarrow> webrtc_state \<Rightarrow> webrtc_state" where
  "sendCommand command s =
     (case peerRef s of
        None \<Rightarrow> s
      | Some p \<Rightarrow>
          if \<not> (connectionStatus s = ''connected'' \<or> videoActive s) then s
          else s\<lparr>peerRef := Some (p\<lparr>sent := sent p @ [command]\<rparr>)\<rparr>)"

text \<open>
  The hook as it stands once the two video elements are mounted and before any offer:
  no peer, no track.
\<close>

definition mountedWebRTC :: webrtc_state where
  "mountedWebRTC =
     \<lparr>connectionStatus = ''disconnected'', videoActive = False, peerRef = None,
      regularVideoRef = Some \<lparr>srcObject = None\<rparr>, thermalVideoRef = Some \<lparr>srcObject = None\<rparr>,
      videoTracks_regular = None, videoTracks_thermal = None, dataListener = False,
      trackCount = 0, stoppedTracks = [], tornDown = []\<rparr>"

text \<open>The same hook later: connected, its peer carrying the six handlers of
  \<open>handleOffer\<close> and the data listener of the component.\<close>

definition connectedWebRTC :: webrtc_state where
  "connectedWebRTC =
     mountedWebRTC\<lparr>connectionStatus := ''connected'',
       peerRef := Some \<lparr>initiator = False, trickle = False,
         listeners = [''signal'', ''connect'', ''close'', ''error'', ''stream'', ''track'', ''data''],
         signalled = [\<lparr>sdp = Some ''v=0'', offer_type = Some ''offer''\<rparr>], sent = [],
         destroyed = False\<rparr>\<rparr>"

definition isVideo :: "media_track \<Rightarrow> bool" where
  "isVideo track = (kind track = ''video'')"

text \<open>
  The invariant of \<open>handleTrack\<close> used below, for a session that found the roles holding
  \<open>regular0\<close> and \<open>thermal0\<close>: the video tracks seen so far in the session, in order of
  arrival; the regular role holds the first of them and the thermal role the second, and
  a role for which no track has come yet still holds what the session found.
\<close>

definition bound_by_order ::
  "media_track option \<Rightarrow> media_track option \<Rightarrow> media_track list \<Rightarrow> webrtc_state \<Rightarrow> bool" where
  "bound_by_order regular0 thermal0 vids s =
     (trackCount s = length vids \<and> regularVideoRef s \<noteq> None \<and> thermalVideoRef s \<noteq> None
      \<and> videoTracks_regular s = (case elem_at vids 0 of None \<Rightarrow> regular0 | Some a \<Rightarrow> Some a)
      \<and> videoTracks_thermal s = (case elem_at vids 1 of None \<Rightarrow> thermal0 | Some b \<Rightarrow> Some b))"

text \<open>
  Two sessions of one console. The first is opened by an offer on the mounted hook. The
  second is opened by a later offer, after the video tracks A and B came in the first:
  \<open>cleanupPeer\<close> and \<open>handleOffer\<close> reset the ordinal and leave \<open>videoTracksRef\<close> alone, so
  the second session finds both roles bound.
\<close>

definition anOffer :: offer_data where
  "anOffer = \<lparr>sdp = Some ''v=0'', offer_type = Some ''offer''\<rparr>"

definition firstSession :: webrtc_state where
  "firstSession = handleOffer (Some anOffer) mountedWebRTC"

definition secondSession :: webrtc_state where
  "secondSession =
     handleOffer (Some anOffer)
       (handleTracks [\<lparr>track_id = ''A'', kind = ''video''\<rparr>, \<lparr>track_id = ''B'', kind = ''video''\<rparr>]
          firstSession)"

text \<open>A peer after \<open>cleanupPeer\<close>, and the peer that \<open>handleOffer\<close> leaves in \<open>peerRef\<close>,
  written out.\<close>

definition strippedPeer :: "simple_peer \<Rightarrow> simple_peer" where
  "strippedPeer p = p\<lparr>listeners := filter (\<lambda>e. e \<notin> set peerEvents) (listeners p), destroyed := True\<rparr>"

definition answeringPeer :: "offer_data \<Rightarrow> simple_peer" where
  "answeringPeer d =
     \<lparr>initiator = False, trickle = False,
      listeners = [''signal'', ''connect'', ''close'', ''error'', ''stream'', ''track''],
      signalled = [d], sent = [], destroyed = False\<rparr>"

section \<open>JavaScript numbers and strings used by the message handlers\<close>

text \<open>
  A number is \<open>NaN\<close>, an infinity or a finite value. Finite values are reals: the rounding
  and the overflow of IEEE doubles are abstracted away, and \<open>-0\<close> is \<open>0\<close>.
\<close>

datatype jsnum = NaN | NegInf | Num real | PosInf

definition isNaN :: "jsnum \<Rightarrow> bool" where
  "isNaN x = (x = NaN)"

fun js_sub :: "jsnum \<Rightarrow> jsnum \<Rightarrow> jsnum" where
  "js_sub (Num a) (Num b) = Num (a - b)"
| "js_sub NaN y = NaN"
| "js_sub x NaN = NaN"
| "js_sub PosInf PosInf = NaN"
| "js_sub NegInf NegInf = NaN"
| "js_sub PosInf y = PosInf"
| "js_sub NegInf y = NegInf"
| "js_sub (Num a) PosInf = NegInf"
| "js_sub (Num a) NegInf = PosInf"

fun Math_abs :: "jsnum \<Rightarrow> jsnum" where
  "Math_abs NaN = NaN"
| "Math_abs NegInf = PosInf"
| "Math_abs PosInf = PosInf"
| "Math_abs (Num a) = Num \<bar>a\<bar>"

text \<open>\<open>x > y\<close>, false as soon as one side is \<open>NaN\<close>.\<close>

fun js_gt :: "jsnum \<Rightarrow> jsnum \<Rightarrow> bool" where
  "js_gt (Num a) (Num b) = (a > b)"
| "js_gt NaN y = False"
| "js_gt x NaN = False"
| "js_gt PosInf PosInf = False"
| "js_gt PosInf y = True"
| "js_gt x PosInf = False"
| "js_gt NegInf y = False"
| "js_gt (Num a) NegInf = True"

text \<open>Truthiness of a number: everything but \<open>NaN\<close> and zero.\<close>

definition truthy :: "jsnum \<Rightarrow> bool" where
  "truthy x = (x \<noteq> NaN \<and> x \<noteq> Num 0)"

text \<open>
  Strings are byte strings. \<open>startsWith\<close>, and \<open>split\<close> with a one-character separator,
  which returns at least one part, the whole string when the separator is absent.
\<close>

definition startsWith :: "string \<Rightarrow> string \<Rightarrow> bool" where
  "startsWith str searchString = (take (length searchString) str = searchString)"

fun split :: "char \<Rightarrow> string \<Rightarrow> string list" where
  "split sep [] = [[]]"
| "split sep (c # cs) =
     (if c = sep then [] # split sep cs
      else (case split sep cs of [] \<Rightarrow> [[c]] | r # rs \<Rightarrow> (c # r) # rs))"

definition isDigit :: "char \<Rightarrow> bool" where
  "isDigit c = (48 \<le> (of_char c :: nat) \<and> (of_char c :: nat) \<le> 57)"

definition isWhiteSpace :: "char \<Rightarrow> bool" where
  "isWhiteSpace c = ((of_char c :: nat) \<in> {9, 10, 11, 12, 13, 32})"

definition digitsValue :: "string \<Rightarrow> nat" where
  "digitsValue ds = foldl (\<lambda>acc c. 10 * acc + ((of_char c :: nat) - 48)) 0 ds"

text \<open>An optional sign in front of what remains: whether it is a minus, and the rest.\<close>

definition takeSign :: "string \<Rightarrow> bool \<times> string" where
  "takeSign str =
     (case str of
        [] \<Rightarrow> (False, [])
      | c # cs \<Rightarrow> if c = CHR ''-'' then (True, cs)
                  else if c = CHR ''+'' then (False, cs)
                  else (False, str))"

text \<open>\<open>parseInt(str, 10)\<close>: leading white space, a sign, then the longest run of digits;
  \<open>NaN\<close> when there is no digit.\<close>

definition parseInt :: "string \<Rightarrow> jsnum" where
  "parseInt str =
     (let (minus, rest) = takeSign (dropWhile isWhiteSpace str);
          ds = takeWhile isDigit rest
      in if ds = [] then NaN
         else Num (if minus then - real (digitsValue ds) else real (digitsValue ds)))"

text \<open>The exponent part of a decimal literal: \<open>e\<close> or \<open>E\<close>, a sign, digits. It counts
  only when it has a digit.\<close>

definition exponentPart :: "string \<Rightarrow> int" where
  "exponentPart str =
     (case str of
        [] \<Rightarrow> 0
      | c # cs \<Rightarrow>
          if c = CHR ''e'' \<or> c = CHR ''E'' then
            (let (minus, rest) = takeSign cs;
                 ds = takeWhile isDigit rest
             in if ds = [] then 0
                else if minus then - int (digitsValue ds) else int (digitsValue ds))
          else 0)"

definition scale10 :: "real \<Rightarrow> int \<Rightarrow> real" where
  "scale10 m e = (if 0 \<le> e then m * 10 ^ nat e else m / 10 ^ nat (- e))"

text \<open>\<open>parseFloat(str)\<close>: leading white space, a sign, then the longest prefix that is
  \<open>Infinity\<close> or a decimal literal; \<open>NaN\<close> when there is none. What follows the prefix is
  ignored. White space is the ASCII white space; the other Unicode spaces, which the
  language skips as well, are not modelled.\<close>

definition parseFloat :: "string \<Rightarrow> jsnum" where
  "parseFloat str =
     (let (minus, rest) = takeSign (dropWhile isWhiteSpace str)
      in if startsWith rest ''Infinity'' then (if minus then NegInf else PosInf)
         else (let ip = takeWhile isDigit rest;
                   r1 = dropWhile isDigit rest;
                   hasPoint = (r1 \<noteq> [] \<and> hd r1 = CHR ''.'');
                   fp = (if hasPoint then takeWhile isDigit (tl r1) else []);
                   r2 = (if hasPoint then dropWhile isDigit (tl r1) else r1)
               in if ip = [] \<and> fp = [] then NaN
                  else (let m = real (digitsValue ip)
                                + real (digitsValue fp) / 10 ^ length fp;
                            v = scale10 m (exponentPart r2)
                        in Num (if minus then - v else v))))"

text \<open>
  \<open>x.toFixed(6)\<close>. For a finite \<open>x\<close> below \<open>10^21\<close> in magnitude the string is a sign and
  the digits of the integer \<open>n\<close> nearest to \<open>|x| * 10^6\<close> (the larger one on a tie);
  otherwise it is the plain rendering of \<open>x\<close>. The string is determined by, and
  determines, the value below.
\<close>

datatype fixed6 = Fixed bool nat | Unfixed jsnum

definition toFixed6 :: "jsnum \<Rightarrow> fixed6" where
  "toFixed6 x =
     (case x of
        Num r \<Rightarrow> if \<bar>r\<bar> < 10 ^ 21 then Fixed (r < 0) (nat \<lfloor>\<bar>r\<bar> * 10 ^ 6 + 1 / 2\<rfloor>)
                 else Unfixed x
      | _ \<Rightarrow> Unfixed x)"

section \<open>Telemetry and status messages (WebRTCAdmin component)\<close>

record drone_location =
  lat :: jsnum
  lon :: jsnum
  alt :: jsnum
  mslAlt :: jsnum
  groundElevation :: "jsnum option"
  heightAboveGround :: "jsnum option"

record elevation_entry =
  elevation :: jsnum
  entry_lat :: jsnum
  entry_lng :: jsnum

type_synonym cache_key = "fixed6 \<times> fixed6"

record capture_status =
  capturing :: bool
  lastCapture :: "string option"
  capture_error :: "string option"

record frame_counts =
  normal :: jsnum
  thermal :: jsnum
  thermal_data :: jsnum

record video_recording_status =
  recording :: bool
  timestamp :: "string option"
  frames :: frame_counts
  recording_error :: "string option"

record thermal_settings =
  detectRegions :: bool
  detectionMode :: "string option"

text \<open>
  The state of the component that the data-channel handlers and the liveness check
  touch. \<open>captureSafeguardTimeout\<close> tells whether the capture watchdog is pending.
\<close>

record admin_state =
  droneLocation :: "drone_location option"
  elevationCache :: "(cache_key, elevation_entry) js_object"
  lastValidAGL :: "jsnum option"
  lastHeartbeatTime :: int
  heartbeatError :: bool
  captureStatus :: capture_status
  captureSafeguardTimeout :: bool
  videoRecordingStatus :: video_recording_status
  videoRecording :: bool
  thermalSettings :: thermal_settings
  surveillancePoints :: "(jsnum \<times> jsnum) list"
  isAreaFinalized :: bool

text \<open>What the elevation service answered, had it been asked: the request failed, the
  answer held no result, or it held an elevation.\<close>

datatype fetch_result = FetchFailed | FetchNoResults | FetchElevation jsnum

definition carriedElevation :: "admin_state \<Rightarrow> jsnum option" where
  "carriedElevation s =
     (case droneLocation s of
        None \<Rightarrow> None
      | Some d \<Rightarrow> (case groundElevation d of
                     None \<Rightarrow> None
                   | Some g \<Rightarrow> if truthy g then Some g else None))"

definition withGround :: "jsnum \<Rightarrow> drone_location \<Rightarrow> drone_location" where
  "withGround g loc =
     loc\<lparr>groundElevation := Some g, heightAboveGround := Some (js_sub (mslAlt loc) g)\<rparr>"

definition movedFrom :: "drone_location option \<Rightarrow> jsnum \<Rightarrow> jsnum \<Rightarrow> bool" where
  "movedFrom prev la lo =
     (case prev of
        None \<Rightarrow> True
      | Some d \<Rightarrow> js_gt (Math_abs (js_sub (lat d) la)) (Num (1 / 10000))
                \<or> js_gt (Math_abs (js_sub (lon d) lo)) (Num (1 / 10000)))"

text \<open>
  \<open>handleLocationMessage\<close>. The handler is asynchronous; it is modelled as one step that
  is given the outcome of the elevation request it may make.
\<close>

definition handleLocationMessage :: "fetch_result \<Rightarrow> string \<Rightarrow> admin_state \<Rightarrow> admin_state" where
  "handleLocationMessage fetched msg s =
     (if \<not> startsWith msg ''LOCATION:'' then s
      else (let parts = split CHR '':'' msg in
        if length parts \<noteq> 5 then s
        else (let la = parseFloat (parts ! 1);
                  lo = parseFloat (parts ! 2);
                  relAlt = parseFloat (parts ! 3);
                  msl = parseFloat (parts ! 4) in
          if isNaN la \<or> isNaN lo \<or> isNaN relAlt \<or> isNaN msl then s
          else (let currentLocation = \<lparr>lat = la, lon = lo, alt = relAlt, mslAlt = msl,
                      groundElevation = None, heightAboveGround = None\<rparr> in
            if movedFrom (droneLocation s) la lo then
              (let cacheKey = (toFixed6 la, toFixed6 lo) in
               case obj_get (elevationCache s) cacheKey of
                 Some entry \<Rightarrow>
                   (let loc = withGround (elevation entry) currentLocation
                    in s\<lparr>lastValidAGL := heightAboveGround loc, droneLocation := Some loc\<rparr>)
               | None \<Rightarrow>
                   (case fetched of
                      FetchElevation g \<Rightarrow>
                        (let loc = withGround g currentLocation
                         in s\<lparr>lastValidAGL := heightAboveGround loc,
                              elevationCache := insertElevation cacheKey
                                \<lparr>elevation = g, entry_lat = la, entry_lng = lo\<rparr> (elevationCache s),
                              droneLocation := Some loc\<rparr>)
                    | FetchNoResults \<Rightarrow> s\<lparr>droneLocation := Some currentLocation\<rparr>
                    | FetchFailed \<Rightarrow>
                        (case carriedElevation s of
                           Some g \<Rightarrow> s\<lparr>droneLocation := Some (withGround g currentLocation)\<rparr>
                         | None \<Rightarrow> s\<lparr>droneLocation := Some currentLocation\<rparr>)))
            else (case carriedElevation s of
                    Some g \<Rightarrow>
                      (let loc = withGround g currentLocation
                       in s\<lparr>lastValidAGL := heightAboveGround loc, droneLocation := Some loc\<rparr>)
                  | None \<Rightarrow> s\<lparr>droneLocation := Some currentLocation\<rparr>)))))"


text \<open>\<open>handleOtherMessages\<close>, given the reading of the clock.\<close>

definition handleOtherMessages :: "int \<Rightarrow> string \<Rightarrow> admin_state \<Rightarrow> admin_state" where
  "handleOtherMessages now msg s =
     (if msg = ''heartbeat'' then s\<lparr>lastHeartbeatTime := now\<rparr>
      else if startsWith msg ''CAPTURE_SUCCESS:'' then
        s\<lparr>captureSafeguardTimeout := False,
          captureStatus := \<lparr>capturing = False, lastCapture = elem_at (split CHR '':'' msg) 1,
                            capture_error = None\<rparr>\<rparr>
      else if startsWith msg ''CAPTURE_ERROR:'' then
        s\<lparr>captureSafeguardTimeout := False,
          captureStatus := \<lparr>capturing = False, lastCapture = None,
                            capture_error = Some (drop (length ''CAPTURE_ERROR:'') msg)\<rparr>\<rparr>
      else if startsWith msg ''VIDEO_STARTED:'' then
        (let parts = split CHR '':'' msg in
         if length parts \<ge> 2 then
           s\<lparr>videoRecordingStatus := \<lparr>recording = True, timestamp = elem_at parts 1,
                 frames = \<lparr>normal = Num 0, thermal = Num 0, thermal_data = Num 0\<rparr>,
                 recording_error = None\<rparr>,
             videoRecording := True\<rparr>
         else s)
      else if startsWith msg ''VIDEO_STOPPED:'' then
        (let parts = split CHR '':'' msg in
         if length parts \<ge> 5 then
           s\<lparr>videoRecordingStatus := \<lparr>recording = False, timestamp = elem_at parts 1,
                 frames = \<lparr>normal = parseInt (parts ! 2), thermal = parseInt (parts ! 3),
                            thermal_data = parseInt (parts ! 4)\<rparr>,
                 recording_error = None\<rparr>,
             videoRecording := False\<rparr>
         else s)
      else if startsWith msg ''VIDEO_ERROR:'' then
        s\<lparr>videoRecordingStatus := (videoRecordingStatus s)
              \<lparr>recording := False,
               recording_error := Some (drop (length ''VIDEO_ERROR:'') msg)\<rparr>,
          videoRecording := False\<rparr>
      else if startsWith msg ''THERMAL_DETECT_REGIONS_STATUS:'' then
        s\<lparr>thermalSettings := (thermalSettings s)
              \<lparr>detectRegions := (elem_at (split CHR '':'' msg) 1 = Some ''enabled'')\<rparr>\<rparr>
      else if startsWith msg ''THERMAL_DETECTION_MODE_STATUS:'' then
        s\<lparr>thermalSettings := (thermalSettings s)
              \<lparr>detectionMode := elem_at (split CHR '':'' msg) 1\<rparr>\<rparr>
      else s)"

definition handleDataMessage :: "fetch_result \<Rightarrow> int \<Rightarrow> string \<Rightarrow> admin_state \<Rightarrow> admin_state" where
  "handleDataMessage fetched now msg s =
     handleOtherMessages now msg (handleLocationMessage fetched msg s)"




text \<open>The component as it is mounted, the clock being read from that moment on.\<close>

definition initialAdminState :: admin_state where
  "initialAdminState =
     \<lparr>droneLocation = None, elevationCache = [], lastValidAGL = None,
      lastHeartbeatTime = 0, heartbeatError = False,
      captureStatus = \<lparr>capturing = False, lastCapture = None, capture_error = None\<rparr>,
      captureSafeguardTimeout = False,
      videoRecordingStatus = \<lparr>recording = False, timestamp = None,
        frames = \<lparr>normal = Num 0, thermal = Num 0, thermal_data = Num 0\<rparr>,
        recording_error = None\<rparr>,
      videoRecording = False,
      thermalSettings = \<lparr>detectRegions = True, detectionMode = Some ''over''\<rparr>,
      surveillancePoints = [], isAreaFinalized = False\<rparr>"

section \<open>Heartbeat failsafe (WebRTCAdmin component)\<close>

text \<open>
  The console is the hook's state with the component's. Times are readings of
  \<open>Date.now()\<close>, in milliseconds. \<open>nextCheck\<close> is the time at which the 300 ms interval of
  the liveness check fires next.
\<close>

record console =
  webrtc :: webrtc_state
  admin :: admin_state
  nextCheck :: int

text \<open>The callback of the interval, run at time \<open>now\<close>.\<close>

definition heartbeatCheck :: "int \<Rightarrow> console \<Rightarrow> console" where
  "heartbeatCheck now c =
     (if videoActive (webrtc c) then c\<lparr>admin := (admin c)\<lparr>heartbeatError := False\<rparr>\<rparr>
      else if now - lastHeartbeatTime (admin c) > 5000
           then c\<lparr>admin := (admin c)\<lparr>heartbeatError := True\<rparr>\<rparr>
           else c\<lparr>admin := (admin c)\<lparr>heartbeatError := False\<rparr>\<rparr>)"

text \<open>The interval fires when its time has come, and comes again 300 ms later.\<close>

definition fireCheck :: "console \<Rightarrow> console" where
  "fireCheck c = (heartbeatCheck (nextCheck c) c)\<lparr>nextCheck := nextCheck c + 300\<rparr>"

text \<open>Letting the clock run up to time \<open>t\<close> with nothing else happening: every tick that
  is due fires, in order.\<close>

function advanceTo :: "int \<Rightarrow> console \<Rightarrow> console" where
  "advanceTo t c = (if nextCheck c \<le> t then advanceTo t (fireCheck c) else c)"
  by pat_completeness auto
termination
  by (relation "measure (\<lambda>(t, c). nat (t - nextCheck c + 1))")
     (auto simp: fireCheck_def heartbeatCheck_def)

declare advanceTo.simps [simp del]

text \<open>
  A data-channel message arriving at time \<open>now\<close>. The effect that owns the interval
  depends on \<open>lastHeartbeatTime\<close>: when that value changes, the interval is cleared and set
  up again, so that its next tick is 300 ms away.
\<close>

definition receiveData :: "fetch_result \<Rightarrow> int \<Rightarrow> string \<Rightarrow> console \<Rightarrow> console" where
  "receiveData fetched now msg c =
     (let a = handleDataMessage fetched now msg (admin c)
      in c\<lparr>admin := a,
           nextCheck := (if lastHeartbeatTime a \<noteq> lastHeartbeatTime (admin c)
                         then now + 300 else nextCheck c)\<rparr>)"

text \<open>
  Two consoles of the scenario, connected and without video: one whose last signal came
  at time 0 and whose interval first fires at 300; one that shows the indicator and whose
  interval fires next at 5400.
\<close>

definition consoleAtStart :: console where
  "consoleAtStart = \<lparr>webrtc = connectedWebRTC, admin = initialAdminState, nextCheck = 300\<rparr>"

definition consoleDegraded :: console where
  "consoleDegraded =
     \<lparr>webrtc = connectedWebRTC, admin = initialAdminState\<lparr>heartbeatError := True\<rparr>,
      nextCheck = 5400\<rparr>"

section \<open>Survey mission (WebRTCAdmin component, MapPanel)\<close>

definition finalizeArea :: "admin_state \<Rightarrow> admin_state" where
  "finalizeArea s =
     (if length (surveillancePoints s) < 3 then s
      else s\<lparr>isAreaFinalized := True\<rparr>)"

text \<open>\<open>Array.prototype.join\<close> with a one-character separator.\<close>

fun join :: "char \<Rightarrow> string list \<Rightarrow> string" where
  "join sep [] = []"
| "join sep [x] = x"
| "join sep (x # y # ys) = x @ sep # join sep (y # ys)"

text \<open>
  The mission settings kept by the map panel, and the command it builds. The rendering
  of a number inside a template literal is a parameter, \<open>numberToString\<close>.
\<close>

record 'n mission_params =
  droneSpeed :: 'n
  surveillanceAltitude :: 'n
  surveillanceStyle :: string
  lineSpacing :: 'n
  bufferZone :: 'n

definition missionCommand ::
  "('n \<Rightarrow> string) \<Rightarrow> ('n \<times> 'n) list \<Rightarrow> 'n mission_params \<Rightarrow> string" where
  "missionCommand numberToString points params =
     (let pointsStr = join CHR '','' (map (\<lambda>p. numberToString (fst p) @ '':'' @ numberToString (snd p)) points);
          missionParams = numberToString (droneSpeed params) @ '':''
            @ numberToString (surveillanceAltitude params) @ '':''
            @ surveillanceStyle params @ '':''
            @ numberToString (lineSpacing params) @ '':''
            @ numberToString (bufferZone params)
      in ''START_SURVEILLANCE:'' @ pointsStr @ ''|'' @ missionParams)"

text \<open>\<open>startSurveillanceMission\<close> sends the command under the same guard as
  \<open>sendCommand\<close>, and alerts otherwise.\<close>

definition startSurveillanceMission ::
  "('n \<Rightarrow> string) \<Rightarrow> ('n \<times> 'n) list \<Rightarrow> 'n mission_params \<Rightarrow> webrtc_state \<Rightarrow> webrtc_state" where
  "startSurveillanceMission numberToString points params s =
     (case peerRef s of
        None \<Rightarrow> s
      | Some p \<Rightarrow>
          if connectionStatus s = ''connected'' \<or> videoActive s
          then s\<lparr>peerRef := Some (p\<lparr>sent := sent p @ [missionCommand numberToString points params]\<rparr>)\<rparr>
          else s)"

text \<open>
  Modelled from the spec: the re-split of a mission command, which the vehicle does and
  this repository does not hold. The command is cut at \<open>|\<close>, its left part after the prefix
  at \<open>,\<close> into vertices and each vertex at \<open>:\<close> into two numbers, its right part at \<open>:\<close> into
  the five parameters. \<open>parseNumber\<close> reads a number back. First, one vertex.
\<close>

definition resplitVertex :: "(string \<Rightarrow> 'n option) \<Rightarrow> string \<Rightarrow> ('n \<times> 'n) option" where
  "resplitVertex parseNumber str =
     (case split CHR '':'' str of
        [a, b] \<Rightarrow> (case (parseNumber a, parseNumber b) of
                     (Some x, Some y) \<Rightarrow> Some (x, y)
                   | _ \<Rightarrow> None)
      | _ \<Rightarrow> None)"

text \<open>Modelled from the spec: the right part of the command, re-split at \<open>:\<close> into speed,
  altitude, style, line spacing and buffer zone.\<close>

definition resplitParams :: "(string \<Rightarrow> 'n option) \<Rightarrow> string \<Rightarrow> 'n mission_params option" where
  "resplitParams parseNumber str =
     (case split CHR '':'' str of
        [sp, al, st, ls, bz] \<Rightarrow>
          (case (parseNumber sp, parseNumber al, parseNumber ls, parseNumber bz) of
             (Some v1, Some v2, Some v3, Some v4) \<Rightarrow>
               Some \<lparr>droneSpeed = v1, surveillanceAltitude = v2, surveillanceStyle = st,
                     lineSpacing = v3, bufferZone = v4\<rparr>
           | _ \<Rightarrow> None)
      | _ \<Rightarrow> None)"

text \<open>A list of results that are all there.\<close>

fun allSome :: "'a option list \<Rightarrow> 'a list option" where
  "allSome [] = Some []"
| "allSome (None # xs) = None"
| "allSome (Some x # xs) = (case allSome xs of None \<Rightarrow> None | Some ys \<Rightarrow> Some (x # ys))"

text \<open>Modelled from the spec: the whole re-split, from the command to the vertex list and
  the parameter tuple; \<open>None\<close> when the command does not have that shape.\<close>

definition resplit ::
  "(string \<Rightarrow> 'n option) \<Rightarrow> string \<Rightarrow> (('n \<times> 'n) list \<times> 'n mission_params) option" where
  "resplit parseNumber command =
     (if \<not> startsWith command ''START_SURVEILLANCE:'' then None
      else (case split CHR ''|'' (drop (length ''START_SURVEILLANCE:'') command) of
              [pointsStr, paramsStr] \<Rightarrow>
                (case (allSome (map (resplitVertex parseNumber) (split CHR '','' pointsStr)),
                       resplitParams parseNumber paramsStr) of
                   (Some points, Some params) \<Rightarrow> Some (points, params)
                 | _ \<Rightarrow> None)
            | _ \<Rightarrow> None))"

text \<open>A string that can stand between the separators of a mission command.\<close>

definition delimiterFree :: "string \<Rightarrow> bool" where
  "delimiterFree str = (CHR '':'' \<notin> set str \<and> CHR '','' \<notin> set str \<and> CHR ''|'' \<notin> set str)"

text \<open>
  The vocabulary of the round trip. One vertex as the command writes it. A number renders
  back when its rendering holds none of the three separators and is read back as the
  number itself; \<open>missionNumbers\<close> lists the numbers of a mission.
\<close>

definition vertexString :: "('n \<Rightarrow> string) \<Rightarrow> 'n \<times> 'n \<Rightarrow> string" where
  "vertexString numberToString p = numberToString (fst p) @ '':'' @ numberToString (snd p)"

definition rendersBack :: "('n \<Rightarrow> string) \<Rightarrow> (string \<Rightarrow> 'n option) \<Rightarrow> 'n \<Rightarrow> bool" where
  "rendersBack numberToString parseNumber x =
     (delimiterFree (numberToString x) \<and> parseNumber (numberToString x) = Some x)"

definition missionNumbers :: "('n \<times> 'n) list \<Rightarrow> 'n mission_params \<Rightarrow> 'n list" where
  "missionNumbers points params =
     concat (map (\<lambda>p. [fst p, snd p]) points)
     @ [droneSpeed params, surveillanceAltitude params, lineSpacing params, bufferZone params]"

text \<open>
  An instance of the rendering, for the values that are integers: the decimal digits,
  with a sign. (On a value that is not an integer it renders the integer part, which is
  not what the language does; it is used on integers only.)
\<close>

fun natToString :: "nat \<Rightarrow> string" where
  "natToString n =
     (if n < 10 then [''0123456789'' ! n]
      else natToString (n div 10) @ [''0123456789'' ! (n mod 10)])"

declare natToString.simps [simp del]

definition integerToString :: "jsnum \<Rightarrow> string" where
  "integerToString x =
     (case x of
        NaN \<Rightarrow> ''NaN''
      | PosInf \<Rightarrow> ''Infinity''
      | NegInf \<Rightarrow> ''-Infinity''
      | Num r \<Rightarrow> if r < 0 then CHR ''-'' # natToString (nat \<lfloor>- r\<rfloor>)
                 else natToString (nat \<lfloor>r\<rfloor>))"

text \<open>An area of two vertices, an area of three, and the default mission settings.\<close>

definition twoVertexArea :: admin_state where
  "twoVertexArea = initialAdminState\<lparr>surveillancePoints := [(Num 46, Num 23), (Num 47, Num 23)]\<rparr>"

definition threeVertexArea :: admin_state where
  "threeVertexArea =
     initialAdminState\<lparr>surveillancePoints := [(Num 46, Num 23), (Num 47, Num 23), (Num 47, Num 24)]\<rparr>"

definition defaultMission :: "jsnum mission_params" where
  "defaultMission =
     \<lparr>droneSpeed = Num 5, surveillanceAltitude = Num 30, surveillanceStyle = ''longest'',
      lineSpacing = Num 15, bufferZone = Num 5\<rparr>"

section \<open>Verified properties\<close>

subsection \<open>Throttle integration\<close>

lemma Math_round_clamped:
  "1000 \<le> Math_round (max 1000 (min 2000 x)) \<and> Math_round (max 1000 (min 2000 x)) \<le> 2000"
  unfolding Math_round_def by (simp add: le_floor_iff floor_le_iff) linarith

lemma pollJoystick_throttle_range:
  assumes "1000 \<le> THROTTLE prev" and "THROTTLE prev \<le> 2000"
  shows "1000 \<le> THROTTLE (pollJoystick g prev) \<and> THROTTLE (pollJoystick g prev) \<le> 2000"
  using assms Math_round_clamped by (simp add: pollJoystick_def Let_def)

lemma pollTicks_throttle_range:
  "1000 \<le> THROTTLE start \<Longrightarrow> THROTTLE start \<le> 2000 \<Longrightarrow>
   1000 \<le> THROTTLE (pollTicks ticks start) \<and> THROTTLE (pollTicks ticks start) \<le> 2000"
proof (induction ticks arbitrary: start)
  case Nil
  then show ?case by (simp add: pollTicks_def)
next
  case (Cons g ticks)
  have step: "1000 \<le> THROTTLE (pollJoystick g start) \<and> THROTTLE (pollJoystick g start) \<le> 2000"
    using Cons.prems by (rule pollJoystick_throttle_range)
  have "pollTicks (g # ticks) start = pollTicks ticks (pollJoystick g start)"
    by (simp add: pollTicks_def)
  with Cons.IH step show ?case by simp
qed

text \<open>
  C4. Starting from the neutral frame (throttle 1000), after any finite sequence of poll
  ticks, whatever the axes read at each tick, the throttle channel is within
  \<open>[1000, 2000]\<close>.
\<close>

theorem throttle_always_in_range:
  "THROTTLE (pollTicks ticks initialPWMValues) \<in> {1000 .. 2000}"
proof -
  have "1000 \<le> THROTTLE initialPWMValues" and "THROTTLE initialPWMValues \<le> 2000"
    by (simp_all add: initialPWMValues_def)
  then have "1000 \<le> THROTTLE (pollTicks ticks initialPWMValues)
      \<and> THROTTLE (pollTicks ticks initialPWMValues) \<le> 2000"
    by (rule pollTicks_throttle_range)
  then show ?thesis by simp
qed

subsection \<open>Deadzone filter\<close>

lemma applyDeadzone_alt:
  assumes "0 \<le> d"
  shows "applyDeadzone x d = (max (x - d) 0 + min (x + d) 0) / (1 - d)"
  using assms unfolding applyDeadzone_def by (auto simp: max_def min_def abs_if)

lemma applyDeadzone_continuous:
  assumes "0 \<le> d"
  shows "continuous_on UNIV (\<lambda>x. applyDeadzone x d)"
proof -
  have "continuous_on UNIV (\<lambda>x::real. (max (x - d) 0 + min (x + d) 0) * inverse (1 - d))"
    by (intro continuous_intros)
  then have cont: "continuous_on UNIV (\<lambda>x::real. (max (x - d) 0 + min (x + d) 0) / (1 - d))"
    by (simp add: divide_inverse)
  have eq: "(\<lambda>x. applyDeadzone x d) = (\<lambda>x. (max (x - d) 0 + min (x + d) 0) / (1 - d))"
    using assms by (simp add: applyDeadzone_alt)
  show ?thesis unfolding eq by (fact cont)
qed

lemma applyDeadzone_zero_iff:
  assumes "0 \<le> d" "d < 1"
  shows "applyDeadzone x d = 0 \<longleftrightarrow> \<bar>x\<bar> \<le> d"
  using assms unfolding applyDeadzone_def by (auto simp: abs_if)

lemma applyDeadzone_outside:
  assumes "0 \<le> d" "d < 1" "d < \<bar>x\<bar>"
  shows "applyDeadzone x d = sgn x * ((\<bar>x\<bar> - d) / (1 - d))"
  using assms unfolding applyDeadzone_def by (auto simp: abs_if sgn_if field_simps)

text \<open>
  C5, as the code has it. For a deadzone \<open>d\<close> in \<open>[0, 1)\<close> and an input \<open>x\<close> in \<open>[-1, 1]\<close>
  the result is zero exactly when \<open>|x| \<le> d\<close> (the boundary \<open>|x| = d\<close> included); outside,
  the rest of the range is rescaled linearly onto \<open>[0, 1]\<close> with the sign of \<open>x\<close>; the
  function is continuous and is \<open>\<plusminus>1\<close> at \<open>x = \<plusminus>1\<close>.
\<close>

theorem deadzone_amended:
  assumes "0 \<le> d" and "d < 1" and "- 1 \<le> x" and "x \<le> 1"
  shows "(applyDeadzone x d = 0 \<longleftrightarrow> \<bar>x\<bar> \<le> d)
       \<and> (if \<bar>x\<bar> \<le> d then applyDeadzone x d = 0
          else applyDeadzone x d = sgn x * ((\<bar>x\<bar> - d) / (1 - d)))
       \<and> \<bar>applyDeadzone x d\<bar> \<le> 1
       \<and> continuous_on UNIV (\<lambda>y. applyDeadzone y d)
       \<and> applyDeadzone 1 d = 1 \<and> applyDeadzone (- 1) d = - 1"
proof -
  have z: "applyDeadzone x d = 0 \<longleftrightarrow> \<bar>x\<bar> \<le> d"
    using assms(1,2) by (rule applyDeadzone_zero_iff)
  have o: "\<not> \<bar>x\<bar> \<le> d \<Longrightarrow> applyDeadzone x d = sgn x * ((\<bar>x\<bar> - d) / (1 - d))"
    using assms(1,2) by (simp add: applyDeadzone_outside)
  have b: "\<bar>applyDeadzone x d\<bar> \<le> 1"
    using assms unfolding applyDeadzone_def by (auto simp: abs_if field_simps)
  have c: "continuous_on UNIV (\<lambda>y. applyDeadzone y d)"
    using assms(1) by (rule applyDeadzone_continuous)
  have e1: "applyDeadzone 1 d = 1" and e2: "applyDeadzone (- 1) d = - 1"
    using assms(1,2) unfolding applyDeadzone_def by (auto simp: field_simps)
  from z o b c e1 e2 show ?thesis by simp
qed

text \<open>The theorem at the deadzone \<open>1/2\<close> and the input \<open>3/4\<close>, which lies outside it.\<close>

theorem deadzone_amended_witness:
  "(0::real) \<le> 1 / 2 \<and> (1 / 2 :: real) < 1 \<and> - 1 \<le> (3 / 4 :: real) \<and> (3 / 4 :: real) \<le> 1
   \<and> applyDeadzone (3 / 4) (1 / 2) \<noteq> 0
   \<and> applyDeadzone (3 / 4) (1 / 2) = 1 / 2
   \<and> continuous_on UNIV (\<lambda>y. applyDeadzone y (1 / 2))
   \<and> applyDeadzone 1 (1 / 2) = 1 \<and> applyDeadzone (- 1) (1 / 2) = - 1"
  using deadzone_amended [of "1 / 2" "3 / 4"] by simp

text \<open>
  The claim as written, zero if and only if \<open>|x| < d\<close>, fails on the boundary: with
  \<open>d = 1/2\<close> the input \<open>x = 1/2\<close> is not below the deadzone and still maps to zero.
\<close>

theorem deadzone_boundary_counterexample:
  "(0::real) \<le> 1 / 2 \<and> (1 / 2 :: real) < 1 \<and> - 1 \<le> (1 / 2 :: real) \<and> (1 / 2 :: real) \<le> 1
   \<and> applyDeadzone (1 / 2) (1 / 2) = 0 \<and> \<not> \<bar>1 / 2 :: real\<bar> < 1 / 2"
  by (simp add: applyDeadzone_def)

subsection \<open>Elevation cache\<close>

lemma foldl_obj_delete:
  "foldl obj_delete cache ks = filter (\<lambda>kv. fst kv \<notin> set ks) cache"
  by (induction ks arbitrary: cache) (auto simp: obj_delete_def intro: filter_cong)

lemma filter_not_in_take:
  assumes "distinct (map fst xs)"
  shows "filter (\<lambda>kv. fst kv \<notin> set (take n (map fst xs))) xs = drop n xs"
  using assms
proof (induction xs arbitrary: n)
  case Nil
  then show ?case by simp
next
  case (Cons a xs)
  show ?case
  proof (cases n)
    case 0
    then show ?thesis by simp
  next
    case (Suc m)
    have notin: "fst a \<notin> fst ` set xs" using Cons.prems by simp
    have "filter (\<lambda>kv. fst kv \<notin> set (take n (map fst (a # xs)))) (a # xs)
        = filter (\<lambda>kv. fst kv \<noteq> fst a \<and> fst kv \<notin> set (take m (map fst xs))) xs"
      using Suc by simp
    also have "\<dots> = filter (\<lambda>kv. fst kv \<notin> set (take m (map fst xs))) xs"
    proof (rule filter_cong)
      fix kv assume "kv \<in> set xs"
      then have "fst kv \<in> fst ` set xs" by (rule imageI)
      then have "fst kv \<noteq> fst a" using notin by metis
      then show "(fst kv \<noteq> fst a \<and> fst kv \<notin> set (take m (map fst xs)))
          = (fst kv \<notin> set (take m (map fst xs)))" by simp
    qed simp
    also have "\<dots> = drop m xs" using Cons.IH Cons.prems by simp
    finally show ?thesis using Suc by simp
  qed
qed

lemma limitCacheSize_drop:
  assumes "well_formed cache"
  shows "limitCacheSize cache maxSize = drop (length cache - maxSize) cache"
  using assms
  by (simp add: limitCacheSize_def Let_def Object_keys_def well_formed_def foldl_obj_delete
      filter_not_in_take)

lemma keys_spread_set:
  "Object_keys (obj_spread_set obj key v)
     = (if key \<in> set (Object_keys obj) then Object_keys obj else Object_keys obj @ [key])"
proof -
  have "map fst (map (\<lambda>kv. if fst kv = key then (key, v) else kv) obj) = map fst obj"
    by (induction obj) auto
  then show ?thesis by (simp add: obj_spread_set_def Object_keys_def)
qed

lemma well_formed_spread_set:
  "well_formed obj \<Longrightarrow> well_formed (obj_spread_set obj key v)"
  by (simp add: well_formed_def keys_spread_set)

lemma insertElevation_drop:
  assumes "well_formed cache"
  shows "insertElevation key v cache =
     drop (length (obj_spread_set cache key v) - MAX_ELEVATION_CACHE_SIZE) (obj_spread_set cache key v)"
  using assms by (simp add: insertElevation_def limitCacheSize_drop well_formed_spread_set)

lemma well_formed_insertElevation:
  assumes "well_formed cache"
  shows "well_formed (insertElevation key v cache)"
proof -
  have "well_formed (obj_spread_set cache key v)"
    using assms by (rule well_formed_spread_set)
  then have "distinct (drop (length (obj_spread_set cache key v) - MAX_ELEVATION_CACHE_SIZE)
      (map fst (obj_spread_set cache key v)))"
    unfolding well_formed_def Object_keys_def by (rule distinct_drop)
  then show ?thesis
    using assms by (simp add: insertElevation_drop well_formed_def Object_keys_def drop_map)
qed

lemma length_insertElevation:
  assumes "well_formed cache"
  shows "length (insertElevation key v cache) \<le> MAX_ELEVATION_CACHE_SIZE"
  using assms by (simp add: insertElevation_drop)

lemma length_spread_set:
  "length (obj_spread_set obj key v)
     = (if key \<in> set (Object_keys obj) then length obj else Suc (length obj))"
  by (simp add: obj_spread_set_def)

lemma cache_step_invariant:
  assumes "well_formed cache" and "length cache \<le> MAX_ELEVATION_CACHE_SIZE"
  shows "well_formed (cache_step cache op) \<and> length (cache_step cache op) \<le> MAX_ELEVATION_CACHE_SIZE"
  using assms by (cases op) (simp_all add: well_formed_insertElevation length_insertElevation)

lemma cache_foldl_invariant:
  assumes "well_formed cache" and "length cache \<le> MAX_ELEVATION_CACHE_SIZE"
  shows "well_formed (foldl cache_step cache ops)
       \<and> length (foldl cache_step cache ops) \<le> MAX_ELEVATION_CACHE_SIZE"
  using assms
proof (induction ops arbitrary: cache)
  case Nil
  then show ?case by simp
next
  case (Cons op ops)
  have "well_formed (cache_step cache op) \<and> length (cache_step cache op) \<le> MAX_ELEVATION_CACHE_SIZE"
    using Cons.prems by (rule cache_step_invariant)
  then show ?case using Cons.IH by simp
qed

lemma cache_run_invariant:
  "well_formed (cache_run ops) \<and> length (cache_run ops) \<le> MAX_ELEVATION_CACHE_SIZE"
  unfolding cache_run_def by (rule cache_foldl_invariant) (simp_all add: well_formed_def Object_keys_def)

lemma insertElevation_cases:
  assumes wf: "well_formed cache" and len: "length cache \<le> MAX_ELEVATION_CACHE_SIZE"
  shows "insertElevation key v cache =
     (if key \<in> set (Object_keys cache) then obj_spread_set cache key v
      else if length cache < MAX_ELEVATION_CACHE_SIZE then cache @ [(key, v)]
      else tl cache @ [(key, v)])"
proof (cases "key \<in> set (Object_keys cache)")
  case True
  then show ?thesis using wf len by (simp add: insertElevation_drop length_spread_set)
next
  case False
  then have sp: "obj_spread_set cache key v = cache @ [(key, v)]"
    by (simp add: obj_spread_set_def)
  show ?thesis
  proof (cases "length cache < MAX_ELEVATION_CACHE_SIZE")
    case True
    then show ?thesis using False wf sp by (simp add: insertElevation_drop)
  next
    case f2: False
    then have "length cache = MAX_ELEVATION_CACHE_SIZE" using len by simp
    moreover have "cache \<noteq> []" using f2 by (auto simp: MAX_ELEVATION_CACHE_SIZE_def)
    ultimately show ?thesis using False wf sp f2
      by (cases cache) (simp_all add: insertElevation_drop)
  qed
qed

lemma keys_insertElevation:
  assumes wf: "well_formed cache" and len: "length cache \<le> MAX_ELEVATION_CACHE_SIZE"
  shows "Object_keys (insertElevation key v cache) =
     (if key \<in> set (Object_keys cache) then Object_keys cache
      else if length cache < MAX_ELEVATION_CACHE_SIZE then Object_keys cache @ [key]
      else tl (Object_keys cache) @ [key])"
proof (cases "key \<in> set (Object_keys cache)")
  case True
  then show ?thesis
    using wf len by (simp add: insertElevation_cases keys_spread_set)
next
  case False
  then show ?thesis
    using wf len by (simp add: insertElevation_cases) (simp add: Object_keys_def map_tl)
qed

text \<open>
  C6. Whatever sequence of reads and insertions the cache has gone through since it was
  created empty, it holds at most 100 entries, a read leaves it as it is, and an
  insertion behaves as a first-in first-out queue on the keys: a key already present
  keeps its place (nothing is evicted), a new key goes to the end, and when that
  overflows the bound the entry evicted is the one at the front, the key that was
  added to the object the longest ago.
\<close>

theorem elevation_cache_bound_and_eviction:
  "length (cache_run ops) \<le> 100
   \<and> well_formed (cache_run ops)
   \<and> cache_step (cache_run ops) (CacheGet key) = cache_run ops
   \<and> Object_keys (cache_step (cache_run ops) (CacheInsert key v)) =
       (if key \<in> set (Object_keys (cache_run ops)) then Object_keys (cache_run ops)
        else if length (cache_run ops) < 100 then Object_keys (cache_run ops) @ [key]
        else tl (Object_keys (cache_run ops)) @ [key])
   \<and> cache_step (cache_run ops) (CacheInsert key v) =
       (if key \<in> set (Object_keys (cache_run ops)) then obj_spread_set (cache_run ops) key v
        else if length (cache_run ops) < 100 then cache_run ops @ [(key, v)]
        else tl (cache_run ops) @ [(key, v)])"
proof -
  have inv: "well_formed (cache_run ops) \<and> length (cache_run ops) \<le> MAX_ELEVATION_CACHE_SIZE"
    by (rule cache_run_invariant)
  have k: "Object_keys (insertElevation key v (cache_run ops)) =
     (if key \<in> set (Object_keys (cache_run ops)) then Object_keys (cache_run ops)
      else if length (cache_run ops) < MAX_ELEVATION_CACHE_SIZE
           then Object_keys (cache_run ops) @ [key]
           else tl (Object_keys (cache_run ops)) @ [key])"
    using inv by (intro keys_insertElevation) simp_all
  have e: "insertElevation key v (cache_run ops) =
     (if key \<in> set (Object_keys (cache_run ops)) then obj_spread_set (cache_run ops) key v
      else if length (cache_run ops) < MAX_ELEVATION_CACHE_SIZE
           then cache_run ops @ [(key, v)]
           else tl (cache_run ops) @ [(key, v)])"
    using inv by (intro insertElevation_cases) simp_all
  have m: "MAX_ELEVATION_CACHE_SIZE = 100" by (simp add: MAX_ELEVATION_CACHE_SIZE_def)
  show ?thesis using inv k e unfolding m by simp
qed

subsection \<open>Commands, offers and tracks\<close>

text \<open>
  C10. \<open>sendCommand\<close> leaves the whole state as it is when there is no peer, or when the
  status is not \<open>connected\<close> and video is not active; otherwise the command is appended to
  what the peer was given to send. The peer's outbox changes exactly when a peer exists
  and the console is connected or video is active.
\<close>

theorem sendCommand_guard:
  "(if peerRef s = None \<or> (connectionStatus s \<noteq> ''connected'' \<and> \<not> videoActive s)
    then sendCommand command s = s
    else sendCommand command s =
           s\<lparr>peerRef := Some ((the (peerRef s))\<lparr>sent := sent (the (peerRef s)) @ [command]\<rparr>)\<rparr>
         \<and> map_option sent (peerRef (sendCommand command s))
             = Some (sent (the (peerRef s)) @ [command]))
   \<and> (map_option sent (peerRef (sendCommand command s)) \<noteq> map_option sent (peerRef s)
        \<longleftrightarrow> peerRef s \<noteq> None \<and> (connectionStatus s = ''connected'' \<or> videoActive s))"
  by (auto simp: sendCommand_def split: option.splits)

lemma foldl_removeAllListeners:
  "foldl (\<lambda>q event. removeAllListeners event q) p events
     = p\<lparr>listeners := filter (\<lambda>e. e \<notin> set events) (listeners p)\<rparr>"
proof (induction events arbitrary: p)
  case Nil
  then show ?case by simp
next
  case (Cons ev events)
  have "filter (\<lambda>e. e \<notin> set events) (filter (\<lambda>e. e \<noteq> ev) (listeners p))
      = filter (\<lambda>e. e \<notin> set (ev # events)) (listeners p)"
    by (induction "listeners p") (auto intro: filter_cong)
  then show ?case using Cons.IH by (simp add: removeAllListeners_def)
qed

lemma cleanupPeer_Some:
  "peerRef s = Some p \<Longrightarrow>
   cleanupPeer s = s\<lparr>peerRef := None, dataListener := False, trackCount := 0,
                     tornDown := tornDown s @ [strippedPeer p]\<rparr>"
  by (simp add: cleanupPeer_def Let_def foldl_removeAllListeners strippedPeer_def)

lemma cleanupPeer_None: "peerRef s = None \<Longrightarrow> cleanupPeer s = s"
  by (simp add: cleanupPeer_def)

lemma strippedPeer_no_listeners:
  "set (listeners p) \<subseteq> set peerEvents \<Longrightarrow> listeners (strippedPeer p) = []"
  by (auto simp: strippedPeer_def filter_empty_conv)

lemma handleOffer_valid:
  assumes "\<not> invalidOffer (Some d)"
  shows "handleOffer (Some d) s = (cleanupPeer s)\<lparr>trackCount := 0, peerRef := Some (answeringPeer d)\<rparr>"
  using assms by (simp add: handleOffer_def Let_def answeringPeer_def newPeer_def peer_on_def)

text \<open>
  C3. An offer that is absent, has no session description or is not of type \<open>offer\<close>
  leaves the state as it is. A well-formed offer \<open>d\<close> puts a new peer in \<open>peerRef\<close>, created
  non-initiating and with trickling off, not destroyed, with the offer as its only signal
  and the console's six handlers on it; the peer that was there before, if any, is let go
  destroyed and with every listener on the seven session events removed, which is every
  listener when, as for all that the console registers, they are on those events.
\<close>

theorem handleOffer_contract:
  "(invalidOffer offerData \<longrightarrow> handleOffer offerData s = s)
   \<and> (offerData = Some d \<and> \<not> invalidOffer offerData \<longrightarrow>
        peerRef (handleOffer offerData s) =
          Some \<lparr>initiator = False, trickle = False,
                listeners = [''signal'', ''connect'', ''close'', ''error'', ''stream'', ''track''],
                signalled = [d], sent = [], destroyed = False\<rparr>
        \<and> trackCount (handleOffer offerData s) = 0
        \<and> tornDown (handleOffer offerData s)
            = tornDown s @ (case peerRef s of
                              None \<Rightarrow> []
                            | Some old \<Rightarrow>
                                [old\<lparr>listeners := filter (\<lambda>e. e \<notin> set peerEvents) (listeners old),
                                     destroyed := True\<rparr>])
        \<and> (\<forall>old. peerRef s = Some old \<and> set (listeners old) \<subseteq> set peerEvents \<longrightarrow>
              tornDown (handleOffer offerData s)
                = tornDown s @ [old\<lparr>listeners := [], destroyed := True\<rparr>]))"
proof (cases "invalidOffer offerData")
  case True
  then show ?thesis by (simp add: handleOffer_def)
next
  case False
  show ?thesis
  proof (cases "offerData = Some d")
    case d: True
    have v: "handleOffer offerData s
        = (cleanupPeer s)\<lparr>trackCount := 0, peerRef := Some (answeringPeer d)\<rparr>"
      using False d by (simp add: handleOffer_valid)
    have t: "tornDown (cleanupPeer s)
        = tornDown s @ (case peerRef s of None \<Rightarrow> [] | Some old \<Rightarrow> [strippedPeer old])"
      by (cases "peerRef s") (simp_all add: cleanupPeer_None cleanupPeer_Some)
    have l: "\<forall>old. peerRef s = Some old \<and> set (listeners old) \<subseteq> set peerEvents \<longrightarrow>
        tornDown (cleanupPeer s) = tornDown s @ [old\<lparr>listeners := [], destroyed := True\<rparr>]"
    proof (intro allI impI)
      fix old assume o: "peerRef s = Some old \<and> set (listeners old) \<subseteq> set peerEvents"
      then have "listeners (strippedPeer old) = []" by (simp add: strippedPeer_no_listeners)
      then have "strippedPeer old = old\<lparr>listeners := [], destroyed := True\<rparr>"
        by (simp add: strippedPeer_def)
      then show "tornDown (cleanupPeer s) = tornDown s @ [old\<lparr>listeners := [], destroyed := True\<rparr>]"
        using o t by simp
    qed
    have t': "tornDown (cleanupPeer s)
        = tornDown s @ (case peerRef s of
                          None \<Rightarrow> []
                        | Some old \<Rightarrow>
                            [old\<lparr>listeners := filter (\<lambda>e. e \<notin> set peerEvents) (listeners old),
                                 destroyed := True\<rparr>])"
      using t unfolding strippedPeer_def .
    from False d v t' l show ?thesis by (simp add: answeringPeer_def)
  next
    case False
    then show ?thesis using \<open>\<not> invalidOffer offerData\<close> by simp
  qed
qed

text \<open>
  The theorem at a connected console whose peer carries the console's handlers: an offer
  of type \<open>answer\<close> changes nothing, a proper offer replaces the peer.
\<close>

theorem handleOffer_contract_witness:
  "invalidOffer (Some \<lparr>sdp = Some ''v=0'', offer_type = Some ''answer''\<rparr>)
   \<and> handleOffer (Some \<lparr>sdp = Some ''v=0'', offer_type = Some ''answer''\<rparr>)
       connectedWebRTC
     = connectedWebRTC
   \<and> \<not> invalidOffer (Some \<lparr>sdp = Some ''v=1'', offer_type = Some ''offer''\<rparr>)
   \<and> map_option trickle (peerRef (handleOffer (Some \<lparr>sdp = Some ''v=1'', offer_type = Some ''offer''\<rparr>)
       connectedWebRTC)) = Some False
   \<and> tornDown (handleOffer (Some \<lparr>sdp = Some ''v=1'', offer_type = Some ''offer''\<rparr>)
       connectedWebRTC)
     = [\<lparr>initiator = False, trickle = False, listeners = [],
         signalled = [\<lparr>sdp = Some ''v=0'', offer_type = Some ''offer''\<rparr>], sent = [],
         destroyed = True\<rparr>]"
  using handleOffer_contract [of "Some \<lparr>sdp = Some ''v=0'', offer_type = Some ''answer''\<rparr>"
      "connectedWebRTC"
      "\<lparr>sdp = Some ''v=0'', offer_type = Some ''answer''\<rparr>"]
    handleOffer_contract [of "Some \<lparr>sdp = Some ''v=1'', offer_type = Some ''offer''\<rparr>"
      "connectedWebRTC"
      "\<lparr>sdp = Some ''v=1'', offer_type = Some ''offer''\<rparr>"]
  by (simp add: invalidOffer_def connectedWebRTC_def mountedWebRTC_def peerEvents_def)

lemma handleTrack_non_video: "\<not> isVideo track \<Longrightarrow> handleTrack track s = s"
  by (simp add: handleTrack_def isVideo_def)

lemma handleTracks_snoc:
  "handleTracks (tracks @ [track]) s = handleTrack track (handleTracks tracks s)"
  by (simp add: handleTracks_def)

lemma handleTrack_video_step:
  assumes "bound_by_order r0 t0 vids s" and "isVideo track"
  shows "bound_by_order r0 t0 (vids @ [track]) (handleTrack track s)"
proof -
  consider "length vids = 0" | "length vids = 1" | "length vids \<ge> 2" by linarith
  then show ?thesis
  proof cases
    case 1
    then show ?thesis using assms
      by (auto simp: bound_by_order_def handleTrack_def isVideo_def Let_def stopTracks_def elem_at_def)
  next
    case 2
    then show ?thesis using assms
      by (auto simp: bound_by_order_def handleTrack_def isVideo_def Let_def stopTracks_def
          elem_at_def nth_append)
  next
    case 3
    then show ?thesis using assms
      by (auto simp: bound_by_order_def handleTrack_def isVideo_def Let_def stopTracks_def
          elem_at_def nth_append)
  qed
qed

lemma handleTracks_bound_by_order:
  assumes "bound_by_order r0 t0 [] s"
  shows "bound_by_order r0 t0 (filter isVideo tracks) (handleTracks tracks s)"
proof (induction tracks rule: rev_induct)
  case Nil
  then show ?case using assms by (simp add: handleTracks_def)
next
  case (snoc track tracks)
  show ?case
  proof (cases "isVideo track")
    case True
    then show ?thesis
      using snoc handleTrack_video_step by (simp add: handleTracks_snoc)
  next
    case False
    then show ?thesis
      using snoc by (simp add: handleTracks_snoc handleTrack_non_video)
  qed
qed

text \<open>A well-formed offer opens a session: the ordinal is zero, the video elements and
  the tracks bound to the two roles are those of before.\<close>

lemma handleOffer_opens_session:
  assumes "\<not> invalidOffer (Some d)"
  shows "trackCount (handleOffer (Some d) s) = 0
       \<and> regularVideoRef (handleOffer (Some d) s) = regularVideoRef s
       \<and> thermalVideoRef (handleOffer (Some d) s) = thermalVideoRef s
       \<and> videoTracks_regular (handleOffer (Some d) s) = videoTracks_regular s
       \<and> videoTracks_thermal (handleOffer (Some d) s) = videoTracks_thermal s"
  using assms
  by (cases "peerRef s") (simp_all add: handleOffer_valid cleanupPeer_None cleanupPeer_Some)

text \<open>
  C7, as the code has it. In any session, that is from any state whose ordinal is zero,
  as every accepted offer leaves it, and whose two video elements are mounted: after any
  sequence of arriving tracks the regular (primary) role holds the first video track of
  the sequence and the thermal (secondary) role the second; a role for which no such
  track has arrived keeps what it held when the session began (nothing in the first
  session after mount, the track of the session before in a later one). The ordinal
  counts the video tracks only, and a track that is not video leaves the state as it is.
  So a video track that arrives alone is bound to the primary role, whichever stream of
  the vehicle it carries, and the secondary role keeps what it had.
\<close>

theorem track_classification_amended:
  assumes "trackCount s = 0"
    and "regularVideoRef s \<noteq> None" and "thermalVideoRef s \<noteq> None"
  shows "videoTracks_regular (handleTracks tracks s)
           = (case elem_at (filter isVideo tracks) 0 of
                None \<Rightarrow> videoTracks_regular s | Some a \<Rightarrow> Some a)
       \<and> videoTracks_thermal (handleTracks tracks s)
           = (case elem_at (filter isVideo tracks) 1 of
                None \<Rightarrow> videoTracks_thermal s | Some b \<Rightarrow> Some b)
       \<and> trackCount (handleTracks tracks s) = length (filter isVideo tracks)
       \<and> (if isVideo track
          then trackCount (handleTrack track s) = 1
             \<and> videoTracks_regular (handleTrack track s) = Some track
             \<and> videoTracks_thermal (handleTrack track s) = videoTracks_thermal s
          else handleTrack track s = s)"
proof -
  have "bound_by_order (videoTracks_regular s) (videoTracks_thermal s) [] s"
    using assms by (simp add: bound_by_order_def elem_at_def)
  then have "bound_by_order (videoTracks_regular s) (videoTracks_thermal s)
      (filter isVideo tracks) (handleTracks tracks s)"
    by (rule handleTracks_bound_by_order)
  moreover have "if isVideo track
          then trackCount (handleTrack track s) = 1
             \<and> videoTracks_regular (handleTrack track s) = Some track
             \<and> videoTracks_thermal (handleTrack track s) = videoTracks_thermal s
          else handleTrack track s = s"
    using assms by (auto simp: handleTrack_def isVideo_def Let_def stopTracks_def)
  ultimately show ?thesis by (simp add: bound_by_order_def)
qed

lemmas session_defs = firstSession_def secondSession_def anOffer_def mountedWebRTC_def
  handleOffer_def invalidOffer_def cleanupPeer_def newPeer_def peer_on_def
  removeAllListeners_def peerEvents_def handleTracks_def handleTrack_def stopTracks_def
  oldTracks_def Let_def

text \<open>
  The theorem in the first session, on an audio track followed by the video tracks A
  and B, and in the second session, which finds A and B bound, on an audio track
  followed by the single video track D: D takes the primary role and the secondary role
  still holds B.
\<close>

theorem track_classification_amended_witness:
  "trackCount firstSession = 0
   \<and> regularVideoRef firstSession \<noteq> None \<and> thermalVideoRef firstSession \<noteq> None
   \<and> videoTracks_regular (handleTracks
        [\<lparr>track_id = ''mic'', kind = ''audio''\<rparr>, \<lparr>track_id = ''A'', kind = ''video''\<rparr>,
         \<lparr>track_id = ''B'', kind = ''video''\<rparr>] firstSession)
       = Some \<lparr>track_id = ''A'', kind = ''video''\<rparr>
   \<and> videoTracks_thermal (handleTracks
        [\<lparr>track_id = ''mic'', kind = ''audio''\<rparr>, \<lparr>track_id = ''A'', kind = ''video''\<rparr>,
         \<lparr>track_id = ''B'', kind = ''video''\<rparr>] firstSession)
       = Some \<lparr>track_id = ''B'', kind = ''video''\<rparr>
   \<and> handleTrack \<lparr>track_id = ''mic'', kind = ''audio''\<rparr> firstSession = firstSession
   \<and> trackCount secondSession = 0
   \<and> regularVideoRef secondSession \<noteq> None \<and> thermalVideoRef secondSession \<noteq> None
   \<and> videoTracks_regular secondSession = Some \<lparr>track_id = ''A'', kind = ''video''\<rparr>
   \<and> videoTracks_thermal secondSession = Some \<lparr>track_id = ''B'', kind = ''video''\<rparr>
   \<and> videoTracks_regular (handleTracks
        [\<lparr>track_id = ''mic'', kind = ''audio''\<rparr>, \<lparr>track_id = ''D'', kind = ''video''\<rparr>]
        secondSession)
       = Some \<lparr>track_id = ''D'', kind = ''video''\<rparr>
   \<and> videoTracks_thermal (handleTracks
        [\<lparr>track_id = ''mic'', kind = ''audio''\<rparr>, \<lparr>track_id = ''D'', kind = ''video''\<rparr>]
        secondSession)
       = Some \<lparr>track_id = ''B'', kind = ''video''\<rparr>"
proof -
  have f: "trackCount firstSession = 0 \<and> regularVideoRef firstSession \<noteq> None
      \<and> thermalVideoRef firstSession \<noteq> None"
    by (simp add: session_defs)
  have g: "trackCount secondSession = 0 \<and> regularVideoRef secondSession \<noteq> None
      \<and> thermalVideoRef secondSession \<noteq> None
      \<and> videoTracks_regular secondSession = Some \<lparr>track_id = ''A'', kind = ''video''\<rparr>
      \<and> videoTracks_thermal secondSession = Some \<lparr>track_id = ''B'', kind = ''video''\<rparr>"
    by (simp add: session_defs)
  show ?thesis
    using f g
      track_classification_amended [of firstSession
        "[\<lparr>track_id = ''mic'', kind = ''audio''\<rparr>, \<lparr>track_id = ''A'', kind = ''video''\<rparr>,
          \<lparr>track_id = ''B'', kind = ''video''\<rparr>]" "\<lparr>track_id = ''mic'', kind = ''audio''\<rparr>"]
      track_classification_amended [of secondSession
        "[\<lparr>track_id = ''mic'', kind = ''audio''\<rparr>, \<lparr>track_id = ''D'', kind = ''video''\<rparr>]"
        "\<lparr>track_id = ''mic'', kind = ''audio''\<rparr>"]
    by (simp add: isVideo_def elem_at_def)
qed

text \<open>
  The claim as written has the primary role stay unbound when a single video track, the
  vehicle's second stream B, arrives. It does not: in the session that an offer opens on
  the mounted hook, B is the first video track to arrive and is bound to the primary
  role.
\<close>

theorem lone_track_counterexample:
  "videoTracks_regular firstSession = None
   \<and> videoTracks_regular (handleTracks [\<lparr>track_id = ''B'', kind = ''video''\<rparr>] firstSession)
       = Some \<lparr>track_id = ''B'', kind = ''video''\<rparr>
   \<and> videoTracks_regular (handleTracks [\<lparr>track_id = ''B'', kind = ''video''\<rparr>] firstSession)
       \<noteq> None"
  by (simp add: session_defs)

subsection \<open>Heartbeat failsafe\<close>

lemma heartbeatCheck_error:
  "heartbeatError (admin (heartbeatCheck now c))
     = (\<not> videoActive (webrtc c) \<and> now - lastHeartbeatTime (admin c) > 5000)"
  by (simp add: heartbeatCheck_def)

lemma heartbeatCheck_frame:
  "webrtc (heartbeatCheck now c) = webrtc c
   \<and> nextCheck (heartbeatCheck now c) = nextCheck c
   \<and> lastHeartbeatTime (admin (heartbeatCheck now c)) = lastHeartbeatTime (admin c)
   \<and> admin (heartbeatCheck now c)
       = (admin c)\<lparr>heartbeatError := heartbeatError (admin (heartbeatCheck now c))\<rparr>"
  by (simp add: heartbeatCheck_def)

lemma fireCheck_facts:
  "nextCheck (fireCheck c) = nextCheck c + 300
   \<and> webrtc (fireCheck c) = webrtc c
   \<and> lastHeartbeatTime (admin (fireCheck c)) = lastHeartbeatTime (admin c)
   \<and> heartbeatError (admin (fireCheck c))
       = (\<not> videoActive (webrtc c) \<and> nextCheck c - lastHeartbeatTime (admin c) > 5000)"
  by (simp add: fireCheck_def heartbeatCheck_def)

lemma advanceTo_due:
  assumes "nextCheck c \<le> t"
  shows "t < nextCheck (advanceTo t c) \<and> nextCheck (advanceTo t c) \<le> t + 300
       \<and> webrtc (advanceTo t c) = webrtc c
       \<and> lastHeartbeatTime (admin (advanceTo t c)) = lastHeartbeatTime (admin c)
       \<and> heartbeatError (admin (advanceTo t c))
           = (\<not> videoActive (webrtc c)
              \<and> nextCheck (advanceTo t c) - 300 - lastHeartbeatTime (admin c) > 5000)"
  using assms
proof (induction t c rule: advanceTo.induct)
  case (1 t c)
  have unfold: "advanceTo t c = advanceTo t (fireCheck c)"
    using "1.prems" by (subst advanceTo.simps) simp
  show ?case
  proof (cases "nextCheck (fireCheck c) \<le> t")
    case True
    then show ?thesis
      using "1.IH" [OF "1.prems" True] unfold fireCheck_facts [of c] by simp
  next
    case False
    then have stop: "advanceTo t (fireCheck c) = fireCheck c"
      by (subst advanceTo.simps) simp
    show ?thesis
      using False "1.prems" unfold stop fireCheck_facts [of c] by simp
  qed
qed

lemma advanceTo_webrtc: "webrtc (advanceTo t c) = webrtc c"
proof (cases "nextCheck c \<le> t")
  case True
  then show ?thesis by (simp add: advanceTo_due)
next
  case False
  then show ?thesis by (subst advanceTo.simps) simp
qed

lemma receiveData_heartbeat:
  "lastHeartbeatTime (admin (receiveData fetched now ''heartbeat'' c)) = now
   \<and> webrtc (receiveData fetched now ''heartbeat'' c) = webrtc c
   \<and> nextCheck (receiveData fetched now ''heartbeat'' c)
       = (if now \<noteq> lastHeartbeatTime (admin c) then now + 300 else nextCheck c)"
  by (simp add: receiveData_def handleDataMessage_def handleOtherMessages_def
      handleLocationMessage_def startsWith_def)

text \<open>
  C1. The check fires every 300 ms and leaves the hook's state, the peer with it, as it
  is. A tick at time \<open>now\<close> clears the indicator when video is active, and otherwise sets
  it exactly when \<open>now - lastHeartbeatTime\<close> exceeds 5000 ms. With no video and the
  interval running (its next tick not after \<open>lastHeartbeatTime + 5400\<close>), the indicator
  is showing once the clock has reached \<open>lastHeartbeatTime + 5400\<close>; and after a heartbeat
  received at time \<open>now\<close>, with the interval running, it is cleared once the clock has
  reached \<open>now + 300\<close>.
\<close>

theorem heartbeat_failsafe:
  "heartbeatError (admin (heartbeatCheck now c))
     = (\<not> videoActive (webrtc c) \<and> now - lastHeartbeatTime (admin c) > 5000)
   \<and> nextCheck (fireCheck c) = nextCheck c + 300
   \<and> webrtc (heartbeatCheck now c) = webrtc c
   \<and> webrtc (advanceTo t c) = webrtc c
   \<and> (\<not> videoActive (webrtc c) \<and> nextCheck c \<le> lastHeartbeatTime (admin c) + 5400 \<longrightarrow>
        heartbeatError (admin (advanceTo (lastHeartbeatTime (admin c) + 5400) c)))
   \<and> (nextCheck c \<le> now + 300 \<longrightarrow>
        \<not> heartbeatError (admin (advanceTo (now + 300) (receiveData fetched now ''heartbeat'' c))))"
proof -
  have set_by: "\<not> videoActive (webrtc c) \<and> nextCheck c \<le> lastHeartbeatTime (admin c) + 5400 \<longrightarrow>
        heartbeatError (admin (advanceTo (lastHeartbeatTime (admin c) + 5400) c))"
  proof
    assume a: "\<not> videoActive (webrtc c) \<and> nextCheck c \<le> lastHeartbeatTime (admin c) + 5400"
    then have due: "nextCheck c \<le> lastHeartbeatTime (admin c) + 5400" by simp
    show "heartbeatError (admin (advanceTo (lastHeartbeatTime (admin c) + 5400) c))"
      using advanceTo_due [OF due] a by simp
  qed
  have cleared: "nextCheck c \<le> now + 300 \<longrightarrow>
        \<not> heartbeatError (admin (advanceTo (now + 300) (receiveData fetched now ''heartbeat'' c)))"
  proof
    assume a: "nextCheck c \<le> now + 300"
    let ?c = "receiveData fetched now ''heartbeat'' c"
    have due: "nextCheck ?c \<le> now + 300"
      using a receiveData_heartbeat [of fetched now c] by simp
    have "lastHeartbeatTime (admin ?c) = now"
      using receiveData_heartbeat [of fetched now c] by simp
    then show "\<not> heartbeatError (admin (advanceTo (now + 300) ?c))"
      using advanceTo_due [OF due] by simp
  qed
  show ?thesis
    using set_by cleared heartbeatCheck_error [of now c] fireCheck_facts [of c]
      heartbeatCheck_frame [of now c] advanceTo_webrtc [of t c]
    by simp
qed

text \<open>
  The theorem on the scenario: last signal at 0 and first tick at 300, the indicator is
  on at 5400; with the indicator on and the next tick due at 5400, a heartbeat at 5200
  has it cleared at 5500.
\<close>

theorem heartbeat_failsafe_witness:
  "\<not> videoActive (webrtc consoleAtStart)
   \<and> nextCheck consoleAtStart \<le> lastHeartbeatTime (admin consoleAtStart) + 5400
   \<and> heartbeatError (admin (advanceTo 5400 consoleAtStart))
   \<and> heartbeatError (admin consoleDegraded)
   \<and> nextCheck consoleDegraded \<le> 5200 + 300
   \<and> \<not> heartbeatError (admin (advanceTo 5500
          (receiveData FetchFailed 5200 ''heartbeat'' consoleDegraded)))"
  using heartbeat_failsafe [where c = consoleAtStart and now = 0 and t = 0 and fetched = FetchFailed]
    heartbeat_failsafe [where c = consoleDegraded and now = 5200 and t = 0 and fetched = FetchFailed]
  by (simp add: consoleAtStart_def consoleDegraded_def connectedWebRTC_def mountedWebRTC_def
      initialAdminState_def)

subsection \<open>Inbound messages\<close>











text \<open>The definitions that evaluate the two parsers on a literal.\<close>

lemmas parse_defs = parseFloat_def parseInt_def takeSign_def isWhiteSpace_def isDigit_def
  startsWith_def digitsValue_def exponentPart_def scale10_def



subsection \<open>Position telemetry\<close>





subsection \<open>Survey mission\<close>

lemma split_no_sep: "sep \<notin> set a \<Longrightarrow> split sep a = [a]"
  by (induction a) auto

lemma split_append_sep: "sep \<notin> set a \<Longrightarrow> split sep (a @ sep # r) = a # split sep r"
  by (induction a) auto

lemma split_join:
  assumes "xs \<noteq> []" and "\<forall>x \<in> set xs. sep \<notin> set x"
  shows "split sep (join sep xs) = xs"
  using assms
proof (induction sep xs rule: join.induct)
  case (1 sep)
  then show ?case by simp
next
  case (2 sep x)
  then show ?case by (simp add: split_no_sep)
next
  case (3 sep x y ys)
  then show ?case by (simp add: split_append_sep)
qed

lemma set_join: "set (join sep xs) \<subseteq> insert sep (\<Union>x \<in> set xs. set x)"
  by (induction sep xs rule: join.induct) auto

lemma resplitVertex_vertexString:
  assumes "rendersBack ts pn (fst p)" and "rendersBack ts pn (snd p)"
  shows "resplitVertex pn (vertexString ts p) = Some p"
  using assms
  by (simp add: resplitVertex_def vertexString_def rendersBack_def delimiterFree_def
      split_append_sep split_no_sep)

lemma vertexString_free:
  assumes "rendersBack ts pn (fst p)" and "rendersBack ts pn (snd p)"
  shows "CHR '','' \<notin> set (vertexString ts p) \<and> CHR ''|'' \<notin> set (vertexString ts p)"
  using assms by (simp add: vertexString_def rendersBack_def delimiterFree_def)

lemma allSome_vertices:
  assumes "\<forall>p \<in> set points. rendersBack ts pn (fst p) \<and> rendersBack ts pn (snd p)"
  shows "allSome (map (resplitVertex pn) (map (vertexString ts) points)) = Some points"
  using assms by (induction points) (simp_all add: resplitVertex_vertexString)

lemma resplitParams_render:
  assumes "rendersBack ts pn (droneSpeed params)" and "rendersBack ts pn (surveillanceAltitude params)"
    and "rendersBack ts pn (lineSpacing params)" and "rendersBack ts pn (bufferZone params)"
    and "delimiterFree (surveillanceStyle params)"
  shows "resplitParams pn (ts (droneSpeed params) @ '':''
            @ ts (surveillanceAltitude params) @ '':''
            @ surveillanceStyle params @ '':''
            @ ts (lineSpacing params) @ '':''
            @ ts (bufferZone params)) = Some params"
  using assms
  by (simp add: resplitParams_def rendersBack_def delimiterFree_def split_append_sep split_no_sep)

lemma pointsStr_free:
  assumes "\<forall>p \<in> set points. rendersBack ts pn (fst p) \<and> rendersBack ts pn (snd p)"
  shows "CHR ''|'' \<notin> set (join CHR '','' (map (vertexString ts) points))"
proof
  assume "CHR ''|'' \<in> set (join CHR '','' (map (vertexString ts) points))"
  then have "CHR ''|'' \<in> insert CHR '','' (\<Union>x \<in> set (map (vertexString ts) points). set x)"
    using set_join by blast
  then obtain p where "p \<in> set points" and "CHR ''|'' \<in> set (vertexString ts p)" by auto
  then show False using assms vertexString_free by blast
qed

lemma resplit_missionCommand:
  assumes pts: "points \<noteq> []"
    and nums: "list_all (rendersBack ts pn) (missionNumbers points params)"
    and style: "delimiterFree (surveillanceStyle params)"
  shows "resplit pn (missionCommand ts points params) = Some (points, params)"
proof -
  have v: "\<forall>p \<in> set points. rendersBack ts pn (fst p) \<and> rendersBack ts pn (snd p)"
    using nums by (auto simp: missionNumbers_def list_all_iff)
  have p4: "rendersBack ts pn (droneSpeed params)" "rendersBack ts pn (surveillanceAltitude params)"
    "rendersBack ts pn (lineSpacing params)" "rendersBack ts pn (bufferZone params)"
    using nums by (simp_all add: missionNumbers_def)
  define ps where "ps = join CHR '','' (map (vertexString ts) points)"
  define qs where "qs = ts (droneSpeed params) @ '':''
            @ ts (surveillanceAltitude params) @ '':''
            @ surveillanceStyle params @ '':''
            @ ts (lineSpacing params) @ '':''
            @ ts (bufferZone params)"
  have cmd: "missionCommand ts points params = ''START_SURVEILLANCE:'' @ ps @ CHR ''|'' # qs"
    by (simp add: missionCommand_def Let_def vertexString_def [abs_def] ps_def qs_def)
  have bar: "CHR ''|'' \<notin> set qs"
    using p4 style by (simp add: rendersBack_def delimiterFree_def qs_def)
  have cut: "split CHR ''|'' (ps @ CHR ''|'' # qs) = [ps, qs]"
    using pointsStr_free [OF v] bar by (simp add: split_append_sep split_no_sep ps_def)
  have "\<forall>x \<in> set (map (vertexString ts) points). CHR '','' \<notin> set x"
  proof
    fix x assume "x \<in> set (map (vertexString ts) points)"
    then obtain p where "p \<in> set points" and x: "x = vertexString ts p" by auto
    then have "rendersBack ts pn (fst p)" and "rendersBack ts pn (snd p)" using v by simp_all
    then show "CHR '','' \<notin> set x" unfolding x using vertexString_free by blast
  qed
  then have verts: "split CHR '','' ps = map (vertexString ts) points"
    unfolding ps_def using pts by (intro split_join) simp_all
  have a: "allSome (map (resplitVertex pn) (split CHR '','' ps)) = Some points"
    unfolding verts using v by (rule allSome_vertices)
  have b: "resplitParams pn qs = Some params"
    unfolding qs_def using p4 style by (rule resplitParams_render)
  have pre: "startsWith (missionCommand ts points params) ''START_SURVEILLANCE:''"
    unfolding cmd by (simp add: startsWith_def)
  have rest: "drop (length ''START_SURVEILLANCE:'') (missionCommand ts points params)
      = ps @ CHR ''|'' # qs"
    unfolding cmd by simp
  show ?thesis
    unfolding resplit_def rest cut using pre by (simp add: a b)
qed

text \<open>
  C9. \<open>finalizeArea\<close> leaves an area of fewer than three vertices as it is, not marked
  finalized, and marks an area of three or more. For an area it has just finalized and
  any mission settings, when the numbers involved render back and the style holds no
  separator, re-splitting the command that \<open>startSurveillanceMission\<close> builds gives back
  the vertex list and the five settings.
\<close>

theorem mission_finalize_and_roundtrip:
  "(length (surveillancePoints s) < 3 \<longrightarrow> finalizeArea s = s)
   \<and> (3 \<le> length (surveillancePoints s) \<longrightarrow> finalizeArea s = s\<lparr>isAreaFinalized := True\<rparr>)
   \<and> (\<not> isAreaFinalized s \<and> isAreaFinalized (finalizeArea s)
        \<and> list_all (rendersBack numberToString parseNumber)
             (missionNumbers (surveillancePoints (finalizeArea s)) params)
        \<and> delimiterFree (surveillanceStyle params) \<longrightarrow>
      resplit parseNumber
          (missionCommand numberToString (surveillancePoints (finalizeArea s)) params)
        = Some (surveillancePoints (finalizeArea s), params))"
proof -
  have short: "length (surveillancePoints s) < 3 \<longrightarrow> finalizeArea s = s"
    by (simp add: finalizeArea_def)
  have long: "3 \<le> length (surveillancePoints s) \<longrightarrow> finalizeArea s = s\<lparr>isAreaFinalized := True\<rparr>"
    by (simp add: finalizeArea_def)
  have trip: "\<not> isAreaFinalized s \<and> isAreaFinalized (finalizeArea s)
        \<and> list_all (rendersBack numberToString parseNumber)
             (missionNumbers (surveillancePoints (finalizeArea s)) params)
        \<and> delimiterFree (surveillanceStyle params) \<longrightarrow>
      resplit parseNumber
          (missionCommand numberToString (surveillancePoints (finalizeArea s)) params)
        = Some (surveillancePoints (finalizeArea s), params)"
  proof
    assume a: "\<not> isAreaFinalized s \<and> isAreaFinalized (finalizeArea s)
        \<and> list_all (rendersBack numberToString parseNumber)
             (missionNumbers (surveillancePoints (finalizeArea s)) params)
        \<and> delimiterFree (surveillanceStyle params)"
    then have "3 \<le> length (surveillancePoints s)"
      by (auto simp: finalizeArea_def split: if_splits)
    then have "surveillancePoints (finalizeArea s) \<noteq> []"
      by (auto simp: finalizeArea_def)
    then show "resplit parseNumber
          (missionCommand numberToString (surveillancePoints (finalizeArea s)) params)
        = Some (surveillancePoints (finalizeArea s), params)"
      using a by (intro resplit_missionCommand) simp_all
  qed
  from short long trip show ?thesis by simp
qed

text \<open>
  The theorem on an area of two vertices, which is refused, and on an area of three with
  the default settings, whose command is read back.
\<close>

theorem mission_finalize_and_roundtrip_witness:
  "finalizeArea twoVertexArea = twoVertexArea
   \<and> \<not> isAreaFinalized (finalizeArea twoVertexArea)
   \<and> \<not> isAreaFinalized threeVertexArea
   \<and> isAreaFinalized (finalizeArea threeVertexArea)
   \<and> missionCommand integerToString (surveillancePoints (finalizeArea threeVertexArea)) defaultMission
       = ''START_SURVEILLANCE:46:23,47:23,47:24|5:30:longest:15:5''
   \<and> resplit (\<lambda>str. Some (parseFloat str))
        (missionCommand integerToString (surveillancePoints (finalizeArea threeVertexArea)) defaultMission)
       = Some ([(Num 46, Num 23), (Num 47, Num 23), (Num 47, Num 24)], defaultMission)"
  using mission_finalize_and_roundtrip [of twoVertexArea integerToString
      "\<lambda>str. Some (parseFloat str)" defaultMission]
    mission_finalize_and_roundtrip [of threeVertexArea integerToString
      "\<lambda>str. Some (parseFloat str)" defaultMission]
  by (simp add: twoVertexArea_def threeVertexArea_def defaultMission_def initialAdminState_def
      finalizeArea_def missionNumbers_def rendersBack_def delimiterFree_def
      integerToString_def natToString.simps parse_defs missionCommand_def)

end
